theory Spec2Isabelle
  imports Complex_Main "HOL-Library.Word" "HOL-Library.Monad_Syntax"
begin

section \<open>The envelope generator (src/audio/Envelop.h)\<close>

text \<open>
  A stage of the table is the struct \<open>Envelop::Data\<close>: a target level and a duration in
  samples. The C++ \<open>float\<close> level is idealised as a real number (rounding is not modelled);
  the \<open>unsigned int\<close> duration is a 32-bit word. A duration of 0 marks a sustain stage.
\<close>

record Data =
  modulation :: real
  sampleCount :: "32 word"

text \<open>
  Every method takes the cursor by reference (\<open>sampleCountRef\<close>, \<open>indexRef\<close>) and the
  argument-free overloads pass the members \<open>sampleCount\<close> and \<open>index\<close>. The model passes
  the cursor in and returns the updated one. The sample counter is a 32-bit word, so
  \<open>sampleCountRef++\<close> wraps around as in C++. The stage index is a natural number: it is
  only ever incremented from a position inside the table, and a table is taken to hold
  fewer than \<open>2^31\<close> stages, so neither \<open>indexRef++\<close> nor the \<open>int\<close> loop variable of
  \<open>release\<close> can overflow.
\<close>

record cursor =
  sampleCountRef :: "32 word"
  indexRef :: nat

text \<open>
  \<open>data[i]\<close> on a \<open>std::vector\<close> is unchecked; reading outside the vector is undefined
  behaviour. The model makes that a value: \<open>None\<close>.
\<close>

definition data_at :: "Data list \<Rightarrow> nat \<Rightarrow> Data option" where
  "data_at d i = (if i < length d then Some (d ! i) else None)"

text \<open>
  \<open>data.size() - 1\<close> is computed in \<open>size_t\<close> (64 bits, unsigned): on an empty vector it
  wraps to \<open>2^64 - 1\<close>.
\<close>

definition last_index :: "Data list \<Rightarrow> nat" where
  "last_index d = (if d = [] then 2 ^ 64 - 1 else length d - 1)"

definition setNextPhase :: "cursor \<Rightarrow> cursor" where
  "setNextPhase c = \<lparr>sampleCountRef = 0, indexRef = indexRef c + 1\<rparr>"

definition isSustain :: "Data list \<Rightarrow> nat \<Rightarrow> bool option" where
  "isSustain d i = map_option (\<lambda>x. sampleCount x = 0) (data_at d i)"

text \<open>
  The last two statements of \<open>next\<close>: the ratio of the sample counter to the stage's
  duration, and the linear interpolation towards the level of the following stage. It
  reads \<open>data[indexRef]\<close> and \<open>data[indexRef + 1]\<close>.
\<close>

definition interpolate :: "Data list \<Rightarrow> cursor \<Rightarrow> (real \<times> cursor) option" where
  "interpolate d c = do {
     x \<leftarrow> data_at d (indexRef c);
     y \<leftarrow> data_at d (indexRef c + 1);
     let timeRatio = real (unat (sampleCountRef c)) / real (unat (sampleCount x));
     Some ((modulation y - modulation x) * timeRatio + modulation x, c)
   }"

text \<open>\<open>Envelop::next(sampleCountRef, indexRef)\<close>: the value of this tick and the new cursor.\<close>

definition Envelop_next :: "Data list \<Rightarrow> cursor \<Rightarrow> (real \<times> cursor) option" where
  "Envelop_next d c0 =
    (let c = c0\<lparr>sampleCountRef := sampleCountRef c0 + 1\<rparr> in
     if last_index d \<le> indexRef c then Some (0, c)
     else do {
       sus \<leftarrow> isSustain d (indexRef c);
       if sus then do { x \<leftarrow> data_at d (indexRef c); Some (modulation x, c) }
       else do {
         x \<leftarrow> data_at d (indexRef c);
         if sampleCount x \<le> sampleCountRef c then
           (let c' = setNextPhase c in do {
              sus' \<leftarrow> isSustain d (indexRef c');
              if sus' then do { y \<leftarrow> data_at d (indexRef c'); Some (modulation y, c') }
              else interpolate d c'
            })
         else interpolate d c
       }
     })"

text \<open>
  The loop of \<open>release\<close>: \<open>for (int i = indexRef; i < data.size() - 1; i++)\<close>. Its body has
  no \<open>break\<close>: every sustain stage met moves the cursor just behind it, and the scan goes on.
\<close>

function release_scan :: "Data list \<Rightarrow> nat \<Rightarrow> cursor \<Rightarrow> cursor option" where
  "release_scan d i c =
     (if i < last_index d then
        (case isSustain d i of
           None \<Rightarrow> None
         | Some sus \<Rightarrow>
             release_scan d (i + 1) (if sus then setNextPhase (c\<lparr>indexRef := i\<rparr>) else c))
      else Some c)"
  by pat_completeness auto
termination
  by (relation "measure (\<lambda>(d, i, c). last_index d - i)") auto

declare release_scan.simps [simp del]

definition release :: "Data list \<Rightarrow> cursor \<Rightarrow> cursor option" where
  "release d c = do {
     sus \<leftarrow> isSustain d (indexRef c);
     if sus then Some (setNextPhase c) else release_scan d (indexRef c) c
   }"

definition reset :: "cursor \<Rightarrow> cursor" where
  "reset c = c\<lparr>indexRef := 0, sampleCountRef := 0\<rparr>"

text \<open>
  \<open>Envelop::peek\<close> takes the cursor by reference as well; it returns the cursor next to the
  value so that what it does to the cursor is part of the model.
\<close>

definition peek :: "Data list \<Rightarrow> cursor \<Rightarrow> (real \<times> cursor) option" where
  "peek d c =
    (if last_index d \<le> indexRef c then Some (0, c)
     else do {
       sus \<leftarrow> isSustain d (indexRef c);
       if sus then do { x \<leftarrow> data_at d (indexRef c); Some (modulation x, c) }
       else do {
         x \<leftarrow> data_at d (indexRef c);
         let sc = sampleCountRef c;
         if sampleCount x \<le> sc then
           (if indexRef c + 1 < length d
            then do { y \<leftarrow> data_at d (indexRef c + 1); Some (modulation y, c) }
            else Some (0, c))
         else do {
           y \<leftarrow> data_at d (indexRef c + 1);
           let timeRatio = real (unat sc) / real (unat (sampleCount x));
           Some ((modulation y - modulation x) * timeRatio + modulation x, c)
         }
       }
     })"

definition isSilent :: "Data list \<Rightarrow> cursor \<Rightarrow> bool" where
  "isSilent d c = (last_index d \<le> indexRef c)"

text \<open>
  The object: the stage table and the member cursor (\<open>index = 0\<close>, \<open>sampleCount = 0\<close>).
  The constructor \<open>Envelop(std::vector<Data> data) : data(data) {}\<close> has an empty body. Its
  result type has room for a configuration error so that the absence of one can be stated.
\<close>

record Envelop =
  data :: "Data list"
  members :: cursor

datatype config_error = ConfigurationError

definition Envelop_ctor :: "Data list \<Rightarrow> config_error + Envelop" where
  "Envelop_ctor d = Inr \<lparr>data = d, members = \<lparr>sampleCountRef = 0, indexRef = 0\<rparr>\<rparr>"

text \<open>
  The indices of the sustain stages from position \<open>i\<close> up to, and without, the last
  stage, in ascending order. It is used to state what \<open>release_scan\<close> computes.
\<close>

definition sustains_from :: "Data list \<Rightarrow> nat \<Rightarrow> nat list" where
  "sustains_from d i = filter (\<lambda>j. sampleCount (d ! j) = 0) [i ..< length d - 1]"

section \<open>The chord engine (src/plugins/audio/MultiEngine/ChordEngine.h)\<close>

text \<open>
  Modelled from the spec: the macro \<open>CLAMP\<close> of \<open>helpers/math.h\<close>, a header that is not
  among the sources. The spec says that out-of-range selections and the cutoff are
  "clamped to valid bounds"; the model is the usual two-comparison clamp.
\<close>

definition CLAMP :: "'a::linorder \<Rightarrow> 'a \<Rightarrow> 'a \<Rightarrow> 'a" where
  "CLAMP x lo hi = (if x < lo then lo else if hi < x then hi else x)"

definition VOICES :: nat where
  "VOICES = 4"

text \<open>Semitone offsets per voice: Major, Minor, Sus4, Power, Maj7, Min7.\<close>

definition chordDefs :: "int list list" where
  "chordDefs =
    [[0, 4, 7, 12],
     [0, 3, 7, 12],
     [0, 5, 7, 12],
     [0, 7, 12, 19],
     [0, 4, 7, 11],
     [0, 3, 7, 10]]"

text \<open>
  The engine's members that \<open>noteOn\<close> and \<open>noteOff\<close> use. The arrays \<open>phases\<close>,
  \<open>currentFreq\<close> and \<open>targetFreq\<close> of size \<open>VOICES\<close> are functions from the voice
  number; only the voices \<open>0..3\<close> are ever read or written. \<open>lastNote\<close> is a \<open>uint8_t\<close>, \<open>heldNotes\<close> and \<open>cachedNumVoices\<close> are
  \<open>int\<close>s, and the \<open>float\<close>s are idealised as reals. \<open>body\<close> and \<open>chordType\<close> hold what
  \<open>body.get()\<close> and \<open>(int)chordType.get()\<close> return. \<open>baseFreq\<close> is the member of the base
  class that \<open>setBaseFreq\<close> writes. The last three fields are observations: how often
  the base class's \<open>noteOn\<close> and \<open>noteOff\<close> have been called through to, and how many
  numbers \<open>rand()\<close> has handed out.
\<close>

record ChordEngine =
  phases :: "nat \<Rightarrow> real"
  currentFreq :: "nat \<Rightarrow> real"
  targetFreq :: "nat \<Rightarrow> real"
  lastNote :: "8 word"
  heldNotes :: int
  glideEnabled :: bool
  velocity :: real
  cachedNumVoices :: int
  body :: real
  chordType :: int
  baseFreq :: real
  baseNoteOnCalls :: nat
  baseNoteOffCalls :: nat
  randCalls :: nat

text \<open>
  Modelled from the spec: \<open>Engine::noteOn\<close> and \<open>Engine::noteOff\<close> of the base class
  (\<open>Engine.h\<close> is not among the sources). The spec describes them as the host's "default
  noteOn/noteOff envelope-retrigger that concrete engines call through to", the second
  one being "the underlying amplitude-envelope release". The base class cannot reach the
  members of \<open>ChordEngine\<close>; the model records that the call was made.
\<close>

definition Engine_noteOn :: "ChordEngine \<Rightarrow> ChordEngine" where
  "Engine_noteOn s = s\<lparr>baseNoteOnCalls := baseNoteOnCalls s + 1\<rparr>"

definition Engine_noteOff :: "ChordEngine \<Rightarrow> ChordEngine" where
  "Engine_noteOff s = s\<lparr>baseNoteOffCalls := baseNoteOffCalls s + 1\<rparr>"

text \<open>
  The body of the loop over the voices in \<open>noteOn\<close>, for voice \<open>v\<close>. \<open>rnd k\<close> is the value
  of \<open>(float)rand() / RAND_MAX\<close> at the \<open>k\<close>-th call of \<open>rand()\<close>.
\<close>

definition setVoice :: "bool \<Rightarrow> (nat \<Rightarrow> real) \<Rightarrow> int list \<Rightarrow> nat \<Rightarrow> ChordEngine \<Rightarrow> ChordEngine" where
  "setVoice shouldGlide rnd offsets v s =
    (if int v < cachedNumVoices s then
       (let target = baseFreq s * 2 powr (real_of_int (offsets ! v) / 12);
            s' = s\<lparr>targetFreq := (targetFreq s)(v := target)\<rparr>
        in if \<not> shouldGlide \<or> currentFreq s' v = 0 then
             s'\<lparr>currentFreq := (currentFreq s')(v := target),
                phases := (phases s')(v := rnd (randCalls s')),
                randCalls := randCalls s' + 1\<rparr>
           else s')
     else s)"

text \<open>
  \<open>ChordEngine::noteOn\<close>. The base class's \<open>setBaseFreq(body, note)\<close> is a parameter: the
  frequency it stores in \<open>baseFreq\<close>. \<open>envAmp\<close> is what \<open>envelopAmp.get()\<close> returns at the
  call. \<open>heldNotes++\<close> on the largest \<open>int\<close> is undefined behaviour: \<open>None\<close>.
\<close>

definition noteOn ::
  "(real \<Rightarrow> 8 word \<Rightarrow> real) \<Rightarrow> (nat \<Rightarrow> real) \<Rightarrow> real \<Rightarrow> 8 word \<Rightarrow> real \<Rightarrow> ChordEngine
     \<Rightarrow> ChordEngine option" where
  "noteOn setBaseFreq rnd envAmp note vel s0 =
    (let s1 = s0\<lparr>velocity := vel\<rparr>;
         shouldGlide = (glideEnabled s1 \<and> note \<noteq> lastNote s1 \<and> envAmp > 0.01);
         s2 = (if \<not> shouldGlide then Engine_noteOn s1 else s1);
         s3 = s2\<lparr>baseFreq := setBaseFreq (body s2) note\<rparr>;
         ctype = chordType s3;
         offsets = chordDefs ! nat (CLAMP ctype 0 (int (length chordDefs) - 1));
         s4 = fold (setVoice shouldGlide rnd offsets) [0 ..< VOICES] s3;
         s5 = s4\<lparr>lastNote := note\<rparr>
     in if heldNotes s5 = 2 ^ 31 - 1 then None
        else Some (s5\<lparr>heldNotes := heldNotes s5 + 1\<rparr>))"

text \<open>\<open>ChordEngine::noteOff\<close>; the arguments are only passed on to the base class.\<close>

definition noteOff :: "8 word \<Rightarrow> real \<Rightarrow> ChordEngine \<Rightarrow> ChordEngine" where
  "noteOff note vel s0 =
    (let s1 = (if heldNotes s0 > 0 then s0\<lparr>heldNotes := heldNotes s0 - 1\<rparr> else s0)
     in if heldNotes s1 = 0 then Engine_noteOff s1 else s1)"

text \<open>
  The host's calls in a row: note-ons, each with its note, velocity and the reading of
  the amplitude envelope at that moment, and note-offs.
\<close>

fun noteOns ::
  "(real \<Rightarrow> 8 word \<Rightarrow> real) \<Rightarrow> (nat \<Rightarrow> real) \<Rightarrow> (8 word \<times> real \<times> real) list \<Rightarrow> ChordEngine
     \<Rightarrow> ChordEngine option" where
  "noteOns setBaseFreq rnd [] s = Some s"
| "noteOns setBaseFreq rnd (e # es) s =
     (case noteOn setBaseFreq rnd (snd (snd e)) (fst e) (fst (snd e)) s of
        None \<Rightarrow> None
      | Some s' \<Rightarrow> noteOns setBaseFreq rnd es s')"

fun noteOffs :: "(8 word \<times> real) list \<Rightarrow> ChordEngine \<Rightarrow> ChordEngine" where
  "noteOffs [] s = s"
| "noteOffs (e # es) s = noteOffs es (noteOff (fst e) (snd e) s)"

section \<open>The wavetable engine (src/plugins/audio/MultiEngine/Wavetable2Engine.h)\<close>

text \<open>
  The members that \<open>setFreq\<close> and \<open>noteOn\<close> read and write. \<open>picth\<close> holds what
  \<open>picth.get()\<close> returns, \<open>wavetableSampleCount\<close> and \<open>sampleRate\<close> stand for
  \<open>wavetable.sampleCount\<close> and \<open>props.sampleRate\<close>, \<open>antiAliasFilterCutoff\<close> is the value
  last handed to \<open>antiAliasFilter.setCutoff\<close>, \<open>velocityW\<close> is the member \<open>velocity\<close>,
  \<open>wavetableSampleIndex\<close> is \<open>wavetable.sampleIndex\<close>, \<open>envPitchSamples\<close> is the value last
  handed to \<open>envPitch.reset\<close>, and \<open>engineNoteOnCalls\<close> counts the calls of the base
  class's \<open>noteOn\<close>.
\<close>

record Wavetable2Engine =
  freq :: real
  freqNote :: "8 word"
  antiAliasCutoff :: real
  antiAliasFilterCutoff :: real
  picth :: real
  wavetableSampleCount :: nat
  sampleRate :: nat
  velocityW :: real
  wavetableSampleIndex :: real
  sampleIndexLfo :: real
  envPitchSamples :: real
  engineNoteOnCalls :: nat

definition baseNote :: "8 word" where
  "baseNote = 60"

definition middleCFreq :: real where
  "middleCFreq = 261.63"

text \<open>
  \<open>setFreq(uint8_t note = 0)\<close>. The argument 0 stands for the note stored by the last
  call; the pitch parameter's callback calls \<open>setFreq()\<close> that way. In \<open>note - 36\<close> and
  \<open>note - baseNote\<close> the \<open>uint8_t\<close> is promoted to \<open>int\<close>, so the differences can be
  negative. The sample increment divides by the sample rate, which is taken to be
  positive.
\<close>

definition setFreq :: "Wavetable2Engine \<Rightarrow> 8 word \<Rightarrow> Wavetable2Engine" where
  "setFreq s note0 =
    (let note = (if note0 = 0 then freqNote s else note0);
         targetHz = middleCFreq * 2 powr ((real_of_int (uint note - uint baseNote) + picth s) / 12);
         sampleInc = targetHz * real (wavetableSampleCount s) / real (sampleRate s);
         noteRatio = real_of_int (uint note - 36) / 60;
         cutoff = CLAMP (1 - noteRatio * 0.7) 0.15 1
     in s\<lparr>freqNote := note, freq := sampleInc, antiAliasCutoff := cutoff,
          antiAliasFilterCutoff := cutoff\<rparr>)"

text \<open>The callback of the pitch parameter: it stores the value and calls \<open>setFreq()\<close>.\<close>

definition picth_callback :: "real \<Rightarrow> Wavetable2Engine \<Rightarrow> Wavetable2Engine" where
  "picth_callback p s = setFreq (s\<lparr>picth := p\<rparr>) 0"

text \<open>
  \<open>Wavetable2Engine::noteOn\<close>. Its first statement calls the base class's \<open>noteOn\<close>, which
  is recorded as a counted call, as in the chord engine.
\<close>

definition Wavetable2Engine_noteOn :: "8 word \<Rightarrow> real \<Rightarrow> Wavetable2Engine \<Rightarrow> Wavetable2Engine" where
  "Wavetable2Engine_noteOn note vel s0 =
    (let s1 = s0\<lparr>engineNoteOnCalls := engineNoteOnCalls s0 + 1\<rparr>;
         s2 = s1\<lparr>velocityW := vel\<rparr>;
         s3 = setFreq s2 note
     in s3\<lparr>wavetableSampleIndex := 0, sampleIndexLfo := 0,
           envPitchSamples := real (sampleRate s3) * 0.15\<rparr>)"

section \<open>Example inputs\<close>

text \<open>
  Stage tables and cursors at which the properties below are evaluated. All levels are
  dyadic fractions, so the values computed from them are exact in \<open>float\<close> as well.
\<close>

definition cursor0 :: cursor where
  "cursor0 = \<lparr>sampleCountRef = 0, indexRef = 0\<rparr>"

definition stages2 :: "Data list" where
  "stages2 = [\<lparr>modulation = 1, sampleCount = 1\<rparr>, \<lparr>modulation = 0, sampleCount = 0\<rparr>]"

definition stages2_open :: "Data list" where
  "stages2_open = [\<lparr>modulation = 1, sampleCount = 1\<rparr>, \<lparr>modulation = 0, sampleCount = 5\<rparr>]"

definition stages3 :: "Data list" where
  "stages3 =
    [\<lparr>modulation = 0, sampleCount = 2\<rparr>, \<lparr>modulation = 1, sampleCount = 0\<rparr>,
     \<lparr>modulation = 0, sampleCount = 0\<rparr>]"

definition stages3_open :: "Data list" where
  "stages3_open =
    [\<lparr>modulation = 0, sampleCount = 1\<rparr>, \<lparr>modulation = 1, sampleCount = 1\<rparr>,
     \<lparr>modulation = 0, sampleCount = 7\<rparr>]"

definition stages6 :: "Data list" where
  "stages6 =
    [\<lparr>modulation = 0, sampleCount = 8\<rparr>, \<lparr>modulation = 1, sampleCount = 0\<rparr>,
     \<lparr>modulation = 1/2, sampleCount = 8\<rparr>, \<lparr>modulation = 1/4, sampleCount = 0\<rparr>,
     \<lparr>modulation = 0, sampleCount = 8\<rparr>, \<lparr>modulation = 0, sampleCount = 0\<rparr>]"

text \<open>
  A chord engine with no note held, chord type Major and four voices, and the wavetable
  engine as its member initialisers leave it (\<open>freqNote = 60\<close>).
\<close>

definition chord0 :: ChordEngine where
  "chord0 =
    \<lparr>phases = (\<lambda>v. 0), currentFreq = (\<lambda>v. 0), targetFreq = (\<lambda>v. 0), lastNote = 0,
     heldNotes = 0, glideEnabled = True, velocity = 1, cachedNumVoices = 4, body = 0,
     chordType = 0, baseFreq = 0, baseNoteOnCalls = 0, baseNoteOffCalls = 0, randCalls = 0\<rparr>"

definition wt0 :: Wavetable2Engine where
  "wt0 =
    \<lparr>freq = 1, freqNote = 60, antiAliasCutoff = 1, antiAliasFilterCutoff = 1, picth = 0,
     wavetableSampleCount = 2048, sampleRate = 44100, velocityW = 1,
     wavetableSampleIndex = 0, sampleIndexLfo = 0, envPitchSamples = 0,
     engineNoteOnCalls = 0\<rparr>"

section \<open>Properties of the envelope generator\<close>

subsection \<open>Reading the table\<close>

lemma last_index_nonempty: "d \<noteq> [] \<Longrightarrow> last_index d = length d - 1"
  by (simp add: last_index_def)

lemma data_at_Some: "i < length d \<Longrightarrow> data_at d i = Some (d ! i)"
  by (simp add: data_at_def)

lemma isSustain_Some: "i < length d \<Longrightarrow> isSustain d i = Some (sampleCount (d ! i) = 0)"
  by (simp add: isSustain_def data_at_def)

text \<open>Unfolding a tick when the reads are known to be inside the table.\<close>

lemmas next_unfold = Envelop_next_def Let_def isSustain_Some data_at_Some interpolate_def
  setNextPhase_def

text \<open>Evaluating the operations on a concrete table.\<close>

lemmas env_eval = Envelop_next_def peek_def Let_def isSustain_def data_at_def interpolate_def
  last_index_def setNextPhase_def reset_def word_le_nat_alt word_less_nat_alt

subsection \<open>One tick\<close>

text \<open>
  The rule of one tick. On a table of at least two stages, \<open>next\<close> first increments the
  sample counter \<open>t\<close> (modulo \<open>2^32\<close>). At or beyond the last index it returns 0. Below
  the last index: in a sustain stage \<open>i\<close> it returns the constant \<open>m[i]\<close>; otherwise,
  when \<open>t \<ge> d[i]\<close>, the cursor moves to stage \<open>i+1\<close> with \<open>t = 0\<close> and the value is
  \<open>m[i+1]\<close> if that stage is a sustain stage and the interpolation of stage \<open>i+1\<close> at
  \<open>t = 0\<close> if it is not; when \<open>t < d[i]\<close> the value is
  \<open>m[i] + (m[i+1] - m[i]) * (t / d[i])\<close>. This holds on every tick but one, the move
  into a last stage of non-zero duration, which is looked at next.
\<close>

lemma next_rule_elsewhere:
  assumes len: "2 \<le> length d"
    and inb: "\<not> (indexRef c + 2 = length d \<and> sampleCount (d ! indexRef c) \<noteq> 0
              \<and> sampleCount (d ! indexRef c) \<le> sampleCountRef c + 1
              \<and> sampleCount (d ! (indexRef c + 1)) \<noteq> 0)"
  shows "Envelop_next d c =
    (let i = indexRef c; t = sampleCountRef c + 1;
         m = (\<lambda>k. modulation (d ! k)); dur = (\<lambda>k. sampleCount (d ! k))
     in if length d - 1 \<le> i then Some (0, \<lparr>sampleCountRef = t, indexRef = i\<rparr>)
        else if dur i = 0 then Some (m i, \<lparr>sampleCountRef = t, indexRef = i\<rparr>)
        else if dur i \<le> t then
          (if dur (i + 1) = 0 then Some (m (i + 1), \<lparr>sampleCountRef = 0, indexRef = i + 1\<rparr>)
           else Some (m (i + 1) + (m (i + 2) - m (i + 1))
                        * (real (unat (0 :: 32 word)) / real (unat (dur (i + 1)))),
                      \<lparr>sampleCountRef = 0, indexRef = i + 1\<rparr>))
        else Some (m i + (m (i + 1) - m i) * (real (unat t) / real (unat (dur i))),
                   \<lparr>sampleCountRef = t, indexRef = i\<rparr>))"
proof -
  from len have ne: "d \<noteq> []" by auto
  show ?thesis
  proof (cases "length d - 1 \<le> indexRef c")
    case True
    then show ?thesis
      by (simp add: Envelop_next_def Let_def last_index_nonempty [OF ne])
  next
    case False
    then have i: "indexRef c < length d" "indexRef c + 1 < length d" by auto
    show ?thesis
    proof (cases "indexRef c + 2 < length d")
      case True
      with False i show ?thesis
        by (simp add: next_unfold last_index_nonempty [OF ne])
    next
      case last: False
      with i have eq: "indexRef c + 2 = length d" by auto
      with False i inb show ?thesis
        by (auto simp add: next_unfold last_index_nonempty [OF ne])
    qed
  qed
qed

text \<open>The rule at the first tick of a three-stage table: half way from 0 to 1.\<close>

lemma next_rule_example:
  "2 \<le> length stages3 \<and>
   indexRef cursor0 + 2 \<noteq> length stages3 \<and>
   Envelop_next stages3 cursor0 = Some (1/2, \<lparr>sampleCountRef = 1, indexRef = 0\<rparr>)"
  using next_rule_elsewhere [of stages3 cursor0]
  by (simp add: stages3_def cursor0_def word_le_nat_alt)

text \<open>
  Claim C1 says that on every tick from a cursor below the last index \<open>next\<close> returns
  the value of the interpolation rule, and 0 at the last index. On the two-stage table
  \<open>(1, 1), (0, 5)\<close> the first tick finds \<open>t = 1 \<ge> d[0]\<close> and moves the cursor to stage
  1, the last one. That stage is not a sustain stage, so the tick goes on to the
  interpolation and reads \<open>data[2]\<close>, which the table does not have: no value of the
  rule, and not 0, is returned. \<open>peek\<close> at the same place (\<open>t = 1\<close> in stage 0) tests
  \<open>indexRef + 1 < data.size()\<close> and returns the level of stage 1.
\<close>

theorem next_no_value_at_last_stage:
  "2 \<le> length stages2_open \<and> indexRef cursor0 < length stages2_open - 1 \<and>
   sampleCount (stages2_open ! 0) \<le> sampleCountRef cursor0 + 1 \<and>
   sampleCount (stages2_open ! 1) \<noteq> 0 \<and>
   Envelop_next stages2_open cursor0 = None \<and>
   data_at stages2_open 2 = None \<and>
   peek stages2_open \<lparr>sampleCountRef = 1, indexRef = 0\<rparr>
     = Some (0, \<lparr>sampleCountRef = 1, indexRef = 0\<rparr>)"
  by (simp add: env_eval stages2_open_def cursor0_def)

subsection \<open>Release\<close>

lemma release_scan_eq:
  "d \<noteq> [] \<Longrightarrow> release_scan d i c =
     Some (if sustains_from d i = [] then c
           else \<lparr>sampleCountRef = 0, indexRef = last (sustains_from d i) + 1\<rparr>)"
proof (induction d i c rule: release_scan.induct)
  case (1 d i c)
  note ne = \<open>d \<noteq> []\<close>
  show ?case
  proof (cases "i < length d - 1")
    case False
    then show ?thesis
      using ne by (simp add: release_scan.simps [of d i c] last_index_def sustains_from_def)
  next
    case True
    then have lt: "i < last_index d" and inb: "i < length d"
      using ne by (auto simp: last_index_def)
    have upt: "sustains_from d i =
        (if sampleCount (d ! i) = 0 then [i] else []) @ sustains_from d (i + 1)"
      using True by (simp add: sustains_from_def upt_conv_Cons)
    have sus: "isSustain d i = Some (sampleCount (d ! i) = 0)"
      using inb by (rule isSustain_Some)
    show ?thesis
      using "1.IH" [OF lt sus ne]
      by (simp add: release_scan.simps [of d i c] lt sus upt setNextPhase_def)
  qed
qed

lemma sustains_stages6: "sustains_from stages6 0 = [1, 3]"
  by (simp add: sustains_from_def stages6_def upt_rec)

lemma stages6_facts: "length stages6 = 6" "sampleCount (stages6 ! 0) = 8"
  by (simp_all add: stages6_def)

text \<open>
  What \<open>release\<close> computes from a cursor inside the table. In a sustain stage it moves
  the cursor exactly one stage on, with the sample counter at 0. Otherwise it scans from
  the current index to the stage before the last one and leaves the cursor just behind
  the last sustain stage it meets; when it meets none the cursor is unchanged.
\<close>

lemma release_computes:
  assumes inside: "indexRef c < length d"
  shows "release d c =
    Some (if sampleCount (d ! indexRef c) = 0
          then \<lparr>sampleCountRef = 0, indexRef = indexRef c + 1\<rparr>
          else if sustains_from d (indexRef c) = [] then c
          else \<lparr>sampleCountRef = 0, indexRef = last (sustains_from d (indexRef c)) + 1\<rparr>)"
proof -
  from inside have ne: "d \<noteq> []" by auto
  show ?thesis
    using inside
    by (simp add: release_def isSustain_Some release_scan_eq [OF ne] setNextPhase_def)
qed

text \<open>
  Claim C2 says that outside a sustain stage \<open>release\<close> scans forward for the FIRST
  sustain stage and moves just past it. The loop that scans has no \<open>break\<close>. In the
  six-stage table the sustain stages are 1 and 3: released in stage 0, the cursor ends
  at stage 4, past both of them, and not at stage 2. The other branch of \<open>release\<close>
  leaves one sustain stage only: released in the sustain stage 1, the cursor ends at
  stage 2, with the sustain stage 3 still ahead.
\<close>

theorem release_not_first_sustain:
  "sustains_from stages6 0 = [1, 3] \<and>
   release stages6 \<lparr>sampleCountRef = 3, indexRef = 0\<rparr> = Some \<lparr>sampleCountRef = 0, indexRef = 4\<rparr> \<and>
   release stages6 \<lparr>sampleCountRef = 3, indexRef = 0\<rparr>
     \<noteq> Some \<lparr>sampleCountRef = 0, indexRef = hd (sustains_from stages6 0) + 1\<rparr> \<and>
   release stages6 \<lparr>sampleCountRef = 9, indexRef = 1\<rparr> = Some \<lparr>sampleCountRef = 0, indexRef = 2\<rparr>"
proof -
  have ne: "stages6 \<noteq> []" by (simp add: stages6_def)
  have far: "release stages6 \<lparr>sampleCountRef = 3, indexRef = 0\<rparr>
      = Some \<lparr>sampleCountRef = 0, indexRef = 4\<rparr>"
    by (simp add: release_def isSustain_Some release_scan_eq [OF ne] sustains_stages6 stages6_facts)
  have near: "release stages6 \<lparr>sampleCountRef = 9, indexRef = 1\<rparr>
      = Some \<lparr>sampleCountRef = 0, indexRef = 2\<rparr>"
    by (simp add: release_def isSustain_def data_at_def setNextPhase_def stages6_def)
  from far near show ?thesis by (simp add: sustains_stages6)
qed

subsection \<open>Peek\<close>

text \<open>
  Claim C3, as the code has it. On a table of at least two stages and from every cursor,
  \<open>peek\<close> returns, leaving the cursor as it is, the current value of the envelope,
  computed from the sample counter \<open>t\<close> as it stands, without the increment that \<open>next\<close>
  makes first: 0 at or beyond the last index, \<open>m[i]\<close> in a sustain stage, \<open>m[i+1]\<close> when
  \<open>t \<ge> d[i]\<close>, and \<open>m[i] + (m[i+1] - m[i]) * (t / d[i])\<close> otherwise. So after a call of
  \<open>next\<close> that leaves the cursor below the last index, \<open>peek\<close> returns the value which
  that call has just returned.
\<close>

theorem peek_current_value:
  assumes len: "2 \<le> length d"
  shows "peek d c =
      Some (let i = indexRef c; t = sampleCountRef c;
                m = (\<lambda>k. modulation (d ! k)); dur = (\<lambda>k. sampleCount (d ! k))
            in if length d - 1 \<le> i then 0
               else if dur i = 0 then m i
               else if dur i \<le> t then m (i + 1)
               else m i + (m (i + 1) - m i) * (real (unat t) / real (unat (dur i))),
            c)
     \<and> (Envelop_next d c0 = Some (v, c) \<and> indexRef c < length d - 1 \<longrightarrow>
          peek d c = Some (v, c))"
proof -
  from len have ne: "d \<noteq> []" by auto
  have li: "last_index d = length d - 1" by (rule last_index_nonempty [OF ne])
  have val: "peek d c =
      Some (let i = indexRef c; t = sampleCountRef c;
                m = (\<lambda>k. modulation (d ! k)); dur = (\<lambda>k. sampleCount (d ! k))
            in if length d - 1 \<le> i then 0
               else if dur i = 0 then m i
               else if dur i \<le> t then m (i + 1)
               else m i + (m (i + 1) - m i) * (real (unat t) / real (unat (dur i))),
            c)"
  proof (cases "length d - 1 \<le> indexRef c")
    case True
    then show ?thesis by (simp add: peek_def li Let_def)
  next
    case False
    then have "indexRef c < length d" "indexRef c + 1 < length d" by auto
    with False show ?thesis
      by (simp add: peek_def li Let_def isSustain_Some data_at_Some)
  qed
  have after: "peek d c = Some (v, c)"
    if nxt: "Envelop_next d c0 = Some (v, c)" and below: "indexRef c < length d - 1"
  proof (cases "length d - 1 \<le> indexRef c0")
    case True
    with nxt below show ?thesis
      by (auto simp: Envelop_next_def Let_def li)
  next
    case False
    then have i: "indexRef c0 < length d" "indexRef c0 + 1 < length d" by auto
    show ?thesis
    proof (cases "sampleCount (d ! indexRef c0) = 0")
      case True
      with nxt False i show ?thesis
        by (auto simp: next_unfold li peek_def)
    next
      case ns: False
      show ?thesis
      proof (cases "sampleCount (d ! indexRef c0) \<le> sampleCountRef c0 + 1")
        case adv: True
        show ?thesis
        proof (cases "sampleCount (d ! (indexRef c0 + 1)) = 0")
          case True
          with nxt False i ns adv below show ?thesis
            by (auto simp: next_unfold li peek_def)
        next
          case ns': False
          have "indexRef c0 + 2 < length d"
            using nxt False i ns adv ns' below
            by (cases "indexRef c0 + 2 < length d") (auto simp: next_unfold li data_at_def)
          with nxt False i ns adv ns' show ?thesis
            by (auto simp: next_unfold li peek_def)
        qed
      next
        case stay: False
        with nxt False i ns show ?thesis
          by (auto simp: next_unfold li peek_def)
      qed
    qed
  qed
  from val after show ?thesis by blast
qed

theorem peek_current_value_witness:
  "2 \<le> length stages3 \<and>
   peek stages3 cursor0 = Some (0, cursor0) \<and>
   peek stages3 \<lparr>sampleCountRef = 7, indexRef = 2\<rparr> = Some (0, \<lparr>sampleCountRef = 7, indexRef = 2\<rparr>) \<and>
   peek stages3 \<lparr>sampleCountRef = 2, indexRef = 0\<rparr> = Some (1, \<lparr>sampleCountRef = 2, indexRef = 0\<rparr>) \<and>
   Envelop_next stages3 cursor0 = Some (1/2, \<lparr>sampleCountRef = 1, indexRef = 0\<rparr>) \<and>
   indexRef \<lparr>sampleCountRef = 1, indexRef = 0\<rparr> < length stages3 - 1 \<and>
   peek stages3 \<lparr>sampleCountRef = 1, indexRef = 0\<rparr> = Some (1/2, \<lparr>sampleCountRef = 1, indexRef = 0\<rparr>)"
proof -
  let ?c1 = "\<lparr>sampleCountRef = 1, indexRef = 0\<rparr>"
  have n: "Envelop_next stages3 cursor0 = Some (1/2, ?c1)"
    by (simp add: env_eval stages3_def cursor0_def)
  have l: "2 \<le> length stages3" by (simp add: stages3_def)
  have b: "indexRef ?c1 < length stages3 - 1"
    by (simp add: stages3_def)
  from peek_current_value [OF l, of ?c1 cursor0 "1/2"] n b
  have after: "peek stages3 ?c1 = Some (1/2, ?c1)" by blast
  have p0: "peek stages3 cursor0 = Some (0, cursor0)"
    using peek_current_value [OF l, of cursor0 cursor0 0]
    by (simp add: stages3_def cursor0_def word_le_nat_alt)
  have p2: "peek stages3 \<lparr>sampleCountRef = 7, indexRef = 2\<rparr>
      = Some (0, \<lparr>sampleCountRef = 7, indexRef = 2\<rparr>)"
    using peek_current_value [OF l, of "\<lparr>sampleCountRef = 7, indexRef = 2\<rparr>" cursor0 0]
    by (simp add: stages3_def)
  have p3: "peek stages3 \<lparr>sampleCountRef = 2, indexRef = 0\<rparr>
      = Some (1, \<lparr>sampleCountRef = 2, indexRef = 0\<rparr>)"
    using peek_current_value [OF l, of "\<lparr>sampleCountRef = 2, indexRef = 0\<rparr>" cursor0 0]
    by (simp add: stages3_def word_le_nat_alt)
  from l p0 p2 p3 n b after show ?thesis by blast
qed

text \<open>
  Claim C3 as it is written says that \<open>peek\<close> returns what the following \<open>next\<close> will
  return. At the start of the three-stage table \<open>peek\<close> returns 0, the value at sample
  count 0, and the following \<open>next\<close> returns 1/2, the value at sample count 1.
\<close>

theorem peek_differs_from_next_counterexample:
  "peek stages3 cursor0 = Some (0, cursor0) \<and>
   Envelop_next stages3 cursor0 = Some (1/2, \<lparr>sampleCountRef = 1, indexRef = 0\<rparr>) \<and>
   map_option fst (peek stages3 cursor0) \<noteq> map_option fst (Envelop_next stages3 cursor0)"
  by (simp add: env_eval stages3_def cursor0_def)

subsection \<open>The first stage and reset\<close>

lemma reset_eq: "reset c = \<lparr>sampleCountRef = 0, indexRef = 0\<rparr>"
  by (cases c) (simp add: reset_def)

text \<open>
  Claim C4, as the code has it. Let the first stage have level \<open>m0\<close> and non-zero
  duration \<open>d\<close>, and the second stage level \<open>m1\<close>. The sample counter is incremented
  before the value is computed, so a call entered with sample counter \<open>t\<close> in stage 0
  returns \<open>m0 + (m1 - m0) * (t + 1) / d\<close> as long as \<open>t + 1 < d\<close>. Right after \<open>reset\<close>
  the next call therefore returns \<open>m0 + (m1 - m0) / d\<close> when \<open>d > 1\<close>; when \<open>d = 1\<close> it
  moves on to stage 1 at once and returns \<open>m1\<close> (stage 1 being a sustain stage, or not
  the last stage). The level \<open>m0\<close> itself is not among the values of stage 0.
\<close>

theorem next_first_stage_ticks:
  assumes len: "2 \<le> length d"
  shows "(t + 1 < sampleCount (d ! 0) \<longrightarrow>
            Envelop_next d \<lparr>sampleCountRef = t, indexRef = 0\<rparr> =
              Some (modulation (d ! 0) + (modulation (d ! 1) - modulation (d ! 0))
                      * (real (unat (t + 1)) / real (unat (sampleCount (d ! 0)))),
                    \<lparr>sampleCountRef = t + 1, indexRef = 0\<rparr>))
         \<and> (1 < sampleCount (d ! 0) \<longrightarrow>
            Envelop_next d (reset c) =
              Some (modulation (d ! 0) + (modulation (d ! 1) - modulation (d ! 0))
                      * (1 / real (unat (sampleCount (d ! 0)))),
                    \<lparr>sampleCountRef = 1, indexRef = 0\<rparr>))
         \<and> (sampleCount (d ! 0) = 1 \<and> (sampleCount (d ! 1) = 0 \<or> 2 < length d) \<longrightarrow>
            Envelop_next d (reset c) =
              Some (modulation (d ! 1), \<lparr>sampleCountRef = 0, indexRef = 1\<rparr>))"
proof -
  from len have ne: "d \<noteq> []" and i: "0 < length d" "Suc 0 < length d" by auto
  have li: "last_index d = length d - 1" by (rule last_index_nonempty [OF ne])
  have tick: "Envelop_next d \<lparr>sampleCountRef = u, indexRef = 0\<rparr> =
           Some (modulation (d ! 0) + (modulation (d ! 1) - modulation (d ! 0))
                   * (real (unat (u + 1)) / real (unat (sampleCount (d ! 0)))),
                 \<lparr>sampleCountRef = u + 1, indexRef = 0\<rparr>)"
    if "u + 1 < sampleCount (d ! 0)" for u
  proof -
    from that have "sampleCount (d ! 0) \<noteq> 0" "\<not> sampleCount (d ! 0) \<le> u + 1" by auto
    then show ?thesis using len i by (simp add: next_unfold li)
  qed
  have first: "Envelop_next d (reset c) =
              Some (modulation (d ! 0) + (modulation (d ! 1) - modulation (d ! 0))
                      * (1 / real (unat (sampleCount (d ! 0)))),
                    \<lparr>sampleCountRef = 1, indexRef = 0\<rparr>)"
    if "1 < sampleCount (d ! 0)"
    using tick [of 0] that by (simp add: reset_eq)
  have one: "Envelop_next d (reset c) =
              Some (modulation (d ! 1), \<lparr>sampleCountRef = 0, indexRef = 1\<rparr>)"
    if "sampleCount (d ! 0) = 1" "sampleCount (d ! 1) = 0 \<or> 2 < length d"
    using that len i by (auto simp: next_unfold li reset_eq)
  from tick first one show ?thesis by blast
qed

theorem next_first_stage_ticks_witness:
  "2 \<le> length stages3 \<and> (1::32 word) < sampleCount (stages3 ! 0) \<and>
   Envelop_next stages3 (reset \<lparr>sampleCountRef = 5, indexRef = 1\<rparr>) =
     Some (1/2, \<lparr>sampleCountRef = 1, indexRef = 0\<rparr>) \<and>
   2 \<le> length stages2 \<and> sampleCount (stages2 ! 0) = 1 \<and> sampleCount (stages2 ! 1) = 0 \<and>
   Envelop_next stages2 (reset cursor0) = Some (0, \<lparr>sampleCountRef = 0, indexRef = 1\<rparr>)"
  using next_first_stage_ticks [of stages3 0 "\<lparr>sampleCountRef = 5, indexRef = 1\<rparr>"]
    next_first_stage_ticks [of stages2 0 cursor0]
  by (simp add: stages3_def stages2_def word_less_nat_alt)

text \<open>
  Claim C4 as it is written says that the call after \<open>reset\<close> returns the level of the
  first stage. On the three-stage table, whose first stage is \<open>(0, 2)\<close> followed by level
  1, it returns 1/2.
\<close>

theorem next_after_reset_counterexample:
  "sampleCount (stages3 ! 0) \<noteq> 0 \<and>
   Envelop_next stages3 (reset cursor0) = Some (1/2, \<lparr>sampleCountRef = 1, indexRef = 0\<rparr>) \<and>
   map_option fst (Envelop_next stages3 (reset cursor0)) \<noteq> Some (modulation (stages3 ! 0))"
  by (simp add: env_eval stages3_def cursor0_def)

subsection \<open>The bound on the stage index\<close>

text \<open>
  What holds of the bound \<open>indexRef < data.size()\<close>: \<open>next\<close>, \<open>reset\<close> and \<open>peek\<close> keep
  it, \<open>release\<close> keeps it from a cursor below the last index, and at the last index
  \<open>isSilent\<close> is true and \<open>next\<close> returns 0.
\<close>

lemma last_sustain_bound:
  assumes "sustains_from d i \<noteq> []"
  shows "last (sustains_from d i) < length d - 1"
proof -
  from assms have "last (sustains_from d i) \<in> set (sustains_from d i)" by (rule last_in_set)
  then show ?thesis by (simp add: sustains_from_def)
qed

lemma index_bound_elsewhere:
  assumes len: "2 \<le> length d" and inv: "indexRef c < length d"
  shows "(Envelop_next d c = Some (v, c') \<longrightarrow> indexRef c' < length d)
       \<and> indexRef (reset c) < length d
       \<and> (peek d c = Some (v, c') \<longrightarrow> c' = c)
       \<and> (indexRef c < length d - 1 \<and> release d c = Some c' \<longrightarrow> indexRef c' < length d)
       \<and> (length d - 1 \<le> indexRef c \<longrightarrow>
            isSilent d c \<and> Envelop_next d c = Some (0, c\<lparr>sampleCountRef := sampleCountRef c + 1\<rparr>))"
proof -
  from len have ne: "d \<noteq> []" by auto
  have li: "last_index d = length d - 1" by (rule last_index_nonempty [OF ne])
  have n: "indexRef c' < length d" if "Envelop_next d c = Some (v, c')"
    using that inv len
    by (auto simp: Envelop_next_def Let_def li isSustain_Some data_at_def interpolate_def
        setNextPhase_def split: if_splits bind_splits)
  have r: "indexRef (reset c) < length d"
    using ne by (simp add: reset_def)
  have p: "c' = c" if "peek d c = Some (v, c')"
    using that by (auto simp: peek_def Let_def split: if_splits bind_splits)
  have rel: "indexRef c' < length d" if "indexRef c < length d - 1" "release d c = Some c'"
  proof (cases "sampleCount (d ! indexRef c) = 0")
    case True
    with that inv show ?thesis
      by (auto simp: release_def isSustain_Some setNextPhase_def)
  next
    case False
    show ?thesis
    proof (cases "sustains_from d (indexRef c) = []")
      case True
      with False that inv show ?thesis
        by (simp add: release_def isSustain_Some release_scan_eq [OF ne])
    next
      case ex: False
      from last_sustain_bound [OF ex] have "last (sustains_from d (indexRef c)) + 1 < length d"
        by simp
      with False ex that inv show ?thesis
        by (auto simp: release_def isSustain_Some release_scan_eq [OF ne])
    qed
  qed
  have s: "isSilent d c \<and> Envelop_next d c = Some (0, c\<lparr>sampleCountRef := sampleCountRef c + 1\<rparr>)"
    if "length d - 1 \<le> indexRef c"
    using that by (simp add: isSilent_def Envelop_next_def Let_def li)
  from n r p rel s show ?thesis by blast
qed

text \<open>
  Claim C5 says that every operation keeps the stage index below the size of the table.
  \<open>release\<close> does not: it asks \<open>isSustain(indexRef)\<close> without the test against the last
  index that \<open>next\<close>, \<open>peek\<close> and \<open>isSilent\<close> make. On the table \<open>(1, 1), (0, 0)\<close> one
  tick after \<open>reset\<close> brings the cursor to the last index 1; the last stage has duration
  0, so \<open>release\<close> moves the index to 2, the size of the table, and a second \<open>release\<close>
  reads \<open>data[2]\<close>.
\<close>

theorem release_leaves_table:
  "Envelop_next stages2 (reset cursor0) = Some (0, \<lparr>sampleCountRef = 0, indexRef = 1\<rparr>) \<and>
   indexRef \<lparr>sampleCountRef = 0, indexRef = 1\<rparr> < length stages2 \<and>
   release stages2 \<lparr>sampleCountRef = 0, indexRef = 1\<rparr> = Some \<lparr>sampleCountRef = 0, indexRef = 2\<rparr> \<and>
   \<not> indexRef \<lparr>sampleCountRef = 0, indexRef = 2\<rparr> < length stages2 \<and>
   release stages2 \<lparr>sampleCountRef = 0, indexRef = 2\<rparr> = None"
  by (simp add: env_eval release_def stages2_def cursor0_def)

text \<open>
  Claim C10 says that \<open>next\<close> never reads outside the table from a cursor reached from
  the initial one. On the table \<open>(0, 1), (1, 1), (0, 7)\<close> the first tick after \<open>reset\<close>
  moves to stage 1, and the second tick moves to stage 2, the last one. Its duration is
  not 0, so the tick goes on to the interpolation, which reads \<open>data[3]\<close>.
\<close>

theorem next_reads_past_table:
  "Envelop_next stages3_open (reset cursor0) = Some (1, \<lparr>sampleCountRef = 0, indexRef = 1\<rparr>) \<and>
   Envelop_next stages3_open \<lparr>sampleCountRef = 0, indexRef = 1\<rparr> = None \<and>
   data_at stages3_open 3 = None"
  by (simp add: env_eval stages3_open_def cursor0_def)

subsection \<open>Construction\<close>

text \<open>
  Claim C9, as the code has it. The constructor checks nothing: a table of fewer than
  two stages is stored like any other, with the cursor at stage 0 and sample count 0,
  and no error is reported. \<open>next\<close> has no check of the table's size either: the first
  tick on a one-stage table returns 0, and on the empty table it reads \<open>data[0]\<close>.
\<close>

theorem ctor_reports_nothing:
  assumes "length d < 2"
  shows "\<exists>e. Envelop_ctor d = Inr e \<and> data e = d
            \<and> members e = \<lparr>sampleCountRef = 0, indexRef = 0\<rparr>
            \<and> Envelop_next (data e) (members e) =
                (if d = [] then None else Some (0, \<lparr>sampleCountRef = 1, indexRef = 0\<rparr>))"
proof (cases d)
  case Nil
  then show ?thesis
    by (simp add: Envelop_ctor_def env_eval)
next
  case (Cons x xs)
  with assms have "xs = []" by simp
  with Cons show ?thesis
    by (simp add: Envelop_ctor_def env_eval)
qed

theorem ctor_reports_nothing_witness:
  "length ([] :: Data list) < 2 \<and>
   Envelop_ctor [] = Inr \<lparr>data = [], members = \<lparr>sampleCountRef = 0, indexRef = 0\<rparr>\<rparr> \<and>
   Envelop_next [] \<lparr>sampleCountRef = 0, indexRef = 0\<rparr> = None"
  using ctor_reports_nothing [of "[]"]
  by (simp add: Envelop_ctor_def)

text \<open>
  Claim C9 as it is written says that construction reports an error for every table of
  fewer than two stages. It reports none for the empty table and none for a table of one
  stage.
\<close>

theorem ctor_no_error_counterexample:
  "length ([] :: Data list) < 2 \<and> Envelop_ctor [] \<noteq> Inl ConfigurationError \<and>
   length [\<lparr>modulation = 1, sampleCount = 4\<rparr>] < 2 \<and>
   Envelop_ctor [\<lparr>modulation = 1, sampleCount = 4\<rparr>] \<noteq> Inl ConfigurationError"
  by (simp add: Envelop_ctor_def)

section \<open>Properties of the chord engine\<close>

subsection \<open>What the loop over the voices leaves alone, and what it sets\<close>

lemma setVoice_frame:
  "heldNotes (setVoice g rnd offs v s) = heldNotes s"
  "baseNoteOffCalls (setVoice g rnd offs v s) = baseNoteOffCalls s"
  "baseFreq (setVoice g rnd offs v s) = baseFreq s"
  "cachedNumVoices (setVoice g rnd offs v s) = cachedNumVoices s"
  by (simp_all add: setVoice_def Let_def)

lemma fold_setVoice_frame:
  "heldNotes (fold (setVoice g rnd offs) vs s) = heldNotes s"
  "baseNoteOffCalls (fold (setVoice g rnd offs) vs s) = baseNoteOffCalls s"
  "baseFreq (fold (setVoice g rnd offs) vs s) = baseFreq s"
  "cachedNumVoices (fold (setVoice g rnd offs) vs s) = cachedNumVoices s"
  by (induction vs arbitrary: s; simp add: setVoice_frame)+

lemma setVoice_target:
  "targetFreq (setVoice g rnd offs v s) w =
     (if w = v \<and> int v < cachedNumVoices s
      then baseFreq s * 2 powr (real_of_int (offs ! v) / 12) else targetFreq s w)"
  by (simp add: setVoice_def Let_def)

lemma fold_setVoice_target:
  "distinct vs \<Longrightarrow> targetFreq (fold (setVoice g rnd offs) vs s) w =
     (if w \<in> set vs \<and> int w < cachedNumVoices s
      then baseFreq s * 2 powr (real_of_int (offs ! w) / 12) else targetFreq s w)"
proof (induction vs arbitrary: s)
  case Nil
  then show ?case by simp
next
  case (Cons v vs)
  then show ?case
    by (auto simp: setVoice_target setVoice_frame)
qed

text \<open>Below the largest \<open>int\<close> the call returns, and this is the state it returns.\<close>

lemma noteOn_Some:
  assumes "heldNotes s < 2 ^ 31 - 1"
  shows "noteOn sb rnd env n vel s =
    Some ((fold (setVoice (glideEnabled s \<and> n \<noteq> lastNote s \<and> env > 0.01) rnd
                   (chordDefs ! nat (CLAMP (chordType s) 0 5))) [0 ..< VOICES]
             ((if \<not> (glideEnabled s \<and> n \<noteq> lastNote s \<and> env > 0.01)
               then Engine_noteOn (s\<lparr>velocity := vel\<rparr>) else s\<lparr>velocity := vel\<rparr>)
                \<lparr>baseFreq := sb (body s) n\<rparr>))
          \<lparr>lastNote := n, heldNotes := heldNotes s + 1\<rparr>)"
  using assms
  by (simp add: noteOn_def Let_def fold_setVoice_frame Engine_noteOn_def chordDefs_def)

subsection \<open>The counter of held notes\<close>

lemma noteOn_held:
  assumes "heldNotes s < 2 ^ 31 - 1"
  shows "\<exists>s'. noteOn sb rnd env n vel s = Some s' \<and> heldNotes s' = heldNotes s + 1
           \<and> baseNoteOffCalls s' = baseNoteOffCalls s"
  by (simp add: noteOn_Some [OF assms] fold_setVoice_frame Engine_noteOn_def)

lemma noteOns_held:
  "heldNotes s + int (length ons) < 2 ^ 31 \<Longrightarrow>
   \<exists>s'. noteOns sb rnd ons s = Some s' \<and> heldNotes s' = heldNotes s + int (length ons)
        \<and> baseNoteOffCalls s' = baseNoteOffCalls s"
proof (induction ons arbitrary: s)
  case Nil
  then show ?case by simp
next
  case (Cons e es)
  then have "heldNotes s < 2 ^ 31 - 1" by simp
  from noteOn_held [OF this, of sb rnd "snd (snd e)" "fst e" "fst (snd e)"]
  obtain s1 where s1: "noteOn sb rnd (snd (snd e)) (fst e) (fst (snd e)) s = Some s1"
      "heldNotes s1 = heldNotes s + 1" "baseNoteOffCalls s1 = baseNoteOffCalls s"
    by blast
  with Cons.prems have "heldNotes s1 + int (length es) < 2 ^ 31" by simp
  from Cons.IH [OF this] s1 show ?case by auto
qed

lemma noteOff_step:
  "0 \<le> heldNotes s \<Longrightarrow>
   heldNotes (noteOff n v s) = max 0 (heldNotes s - 1) \<and>
   baseNoteOffCalls (noteOff n v s) =
     baseNoteOffCalls s + (if heldNotes (noteOff n v s) = 0 then 1 else 0)"
  by (auto simp: noteOff_def Let_def Engine_noteOff_def)

lemma noteOffs_held:
  "int (length offs) \<le> heldNotes s \<Longrightarrow>
   heldNotes (noteOffs offs s) = heldNotes s - int (length offs) \<and>
   baseNoteOffCalls (noteOffs offs s) =
     baseNoteOffCalls s + (if offs \<noteq> [] \<and> int (length offs) = heldNotes s then 1 else 0)"
proof (induction offs arbitrary: s)
  case Nil
  then show ?case by simp
next
  case (Cons e es)
  then have pos: "0 \<le> heldNotes s" "1 \<le> heldNotes s" by simp_all
  let ?s1 = "noteOff (fst e) (snd e) s"
  from noteOff_step [OF pos(1), of "fst e" "snd e"] pos
  have s1: "heldNotes ?s1 = heldNotes s - 1"
    "baseNoteOffCalls ?s1 = baseNoteOffCalls s + (if heldNotes s = 1 then 1 else 0)"
    by auto
  with Cons.prems have "int (length es) \<le> heldNotes ?s1" by simp
  from Cons.IH [OF this] s1 Cons.prems show ?case by (cases es) auto
qed

text \<open>
  Claim C6. From a state whose counter is not negative, and as long as the counter stays
  in the range of \<open>int\<close>: after the note-ons \<open>ons\<close> the counter has grown by their
  number and the base class's \<open>noteOff\<close> has not been called; after the note-offs \<open>offs\<close>
  that follow, no more of them than notes are held, the counter has gone down by their
  number, and the base class's \<open>noteOff\<close> has been called once if they brought the
  counter to zero and not at all if they did not. A single \<open>noteOff\<close> lowers the counter
  by one, not below zero, and calls through to the base class exactly when the counter
  is zero afterwards.
\<close>

theorem held_note_gating:
  assumes h0: "0 \<le> heldNotes s"
    and room: "heldNotes s + int (length ons) < 2 ^ 31"
    and few: "int (length offs) \<le> heldNotes s + int (length ons)"
  shows "\<exists>s1. noteOns setBaseFreq rnd ons s = Some s1
           \<and> heldNotes s1 = heldNotes s + int (length ons)
           \<and> baseNoteOffCalls s1 = baseNoteOffCalls s
           \<and> heldNotes (noteOffs offs s1) = heldNotes s + int (length ons) - int (length offs)
           \<and> baseNoteOffCalls (noteOffs offs s1) =
               baseNoteOffCalls s
                 + (if offs \<noteq> [] \<and> int (length offs) = heldNotes s + int (length ons)
                    then 1 else 0)
           \<and> heldNotes (noteOff n vel s) = max 0 (heldNotes s - 1)
           \<and> baseNoteOffCalls (noteOff n vel s) =
               baseNoteOffCalls s + (if heldNotes (noteOff n vel s) = 0 then 1 else 0)"
proof -
  from noteOns_held [OF room, of setBaseFreq rnd]
  obtain s1 where s1: "noteOns setBaseFreq rnd ons s = Some s1"
      "heldNotes s1 = heldNotes s + int (length ons)" "baseNoteOffCalls s1 = baseNoteOffCalls s"
    by blast
  with few have "int (length offs) \<le> heldNotes s1" by simp
  from noteOffs_held [OF this] s1 noteOff_step [OF h0, of n vel]
  show ?thesis by auto
qed

lemma chord0_facts:
  "heldNotes chord0 = 0" "baseNoteOffCalls chord0 = 0" "chordType chord0 = 0"
  "cachedNumVoices chord0 = 4" "body chord0 = 0"
  by (simp_all add: chord0_def)

theorem held_note_gating_witness:
  "0 \<le> heldNotes chord0 \<and>
   heldNotes chord0 + int (length [(60 :: 8 word, 1 :: real, 0 :: real), (64, 1, 0)]) < 2 ^ 31 \<and>
   int (length [(60 :: 8 word, 0 :: real), (64, 0)])
     \<le> heldNotes chord0 + int (length [(60 :: 8 word, 1 :: real, 0 :: real), (64, 1, 0)]) \<and>
   (\<exists>s1. noteOns (\<lambda>b k. 220) (\<lambda>k. 0) [(60, 1, 0), (64, 1, 0)] chord0 = Some s1 \<and>
      heldNotes s1 = 2 \<and> baseNoteOffCalls s1 = 0 \<and>
      heldNotes (noteOffs [(60, 0)] s1) = 1 \<and>
      baseNoteOffCalls (noteOffs [(60, 0)] s1) = 0 \<and>
      heldNotes (noteOffs [(60, 0), (64, 0)] s1) = 0 \<and>
      baseNoteOffCalls (noteOffs [(60, 0), (64, 0)] s1) = 1)"
proof -
  let ?ons = "[(60 :: 8 word, 1 :: real, 0 :: real), (64, 1, 0)]"
  have h: "0 \<le> heldNotes chord0" by (simp add: chord0_facts)
  have r: "heldNotes chord0 + int (length ?ons) < 2 ^ 31" by (simp add: chord0_facts)
  have f1: "int (length [(60 :: 8 word, 0 :: real)]) \<le> heldNotes chord0 + int (length ?ons)"
    by (simp add: chord0_facts)
  have f2: "int (length [(60 :: 8 word, 0 :: real), (64, 0)]) \<le> heldNotes chord0 + int (length ?ons)"
    by (simp add: chord0_facts)
  from held_note_gating [OF h r f2, of "\<lambda>b k. 220" "\<lambda>k. 0" 0 0]
  obtain s1 where s1: "noteOns (\<lambda>b k. 220) (\<lambda>k. 0) ?ons chord0 = Some s1"
      "heldNotes s1 = 2" "baseNoteOffCalls s1 = 0"
      "heldNotes (noteOffs [(60, 0), (64, 0)] s1) = 0"
      "baseNoteOffCalls (noteOffs [(60, 0), (64, 0)] s1) = 1"
    by (auto simp: chord0_facts)
  from held_note_gating [OF h r f1, of "\<lambda>b k. 220" "\<lambda>k. 0" 0 0] s1(1)
  have "heldNotes (noteOffs [(60, 0)] s1) = 1" "baseNoteOffCalls (noteOffs [(60, 0)] s1) = 0"
    by (auto simp: chord0_facts)
  with s1 h r f2 show ?thesis by blast
qed

subsection \<open>The target frequencies\<close>

lemma CLAMP_int_cases:
  "CLAMP (k::int) 0 5 = (if k \<le> 0 then 0 else if 5 \<le> k then 5 else k)"
  by (simp add: CLAMP_def)

lemma chord_row:
  "chordDefs ! nat (CLAMP k 0 5) =
     (if k \<le> 0 then [0, 4, 7, 12] else if k = 1 then [0, 3, 7, 12]
      else if k = 2 then [0, 5, 7, 12] else if k = 3 then [0, 7, 12, 19]
      else if k = 4 then [0, 4, 7, 11] else [0, 3, 7, 10])"
proof -
  consider "k \<le> 0" | "k = 1" | "k = 2" | "k = 3" | "k = 4" | "5 \<le> k" by linarith
  then show ?thesis
  proof cases
    case 1 then show ?thesis by (simp add: CLAMP_int_cases chordDefs_def)
  next
    case 2 then show ?thesis by (simp add: CLAMP_int_cases chordDefs_def)
  next
    case 3 then show ?thesis by (simp add: CLAMP_int_cases chordDefs_def)
  next
    case 4 then show ?thesis by (simp add: CLAMP_int_cases chordDefs_def)
  next
    case 5 then show ?thesis by (simp add: CLAMP_int_cases chordDefs_def)
  next
    case 6 then show ?thesis by (simp add: CLAMP_int_cases chordDefs_def)
  qed
qed

text \<open>
  Claim C7. As long as the counter of held notes is below the largest \<open>int\<close>, \<open>noteOn\<close>
  returns; \<open>baseFreq\<close> is then what \<open>setBaseFreq\<close> computed from the body parameter and
  the note, and every voice \<open>v\<close> below the number of active voices has
  \<open>targetFreq[v] = baseFreq * 2^(offset[v]/12)\<close>, the other voices keeping their target.
  The offsets are the row of the chord table selected by the chord type clamped to
  \<open>[0, 5]\<close>: Major, Minor, Sus4, Power, Maj7, Min7, a selection below 0 giving Major and
  one above 5 giving Min7. With chord type Major and four voices the targets are
  \<open>baseFreq\<close> times 1, \<open>2^(4/12)\<close>, \<open>2^(7/12)\<close> and 2. The powers are real powers; the
  rounding of \<open>powf\<close> is not modelled.
\<close>

theorem noteOn_target_frequencies:
  assumes room: "heldNotes s < 2 ^ 31 - 1"
  shows "\<exists>s'. noteOn setBaseFreq rnd envAmp n vel s = Some s'
          \<and> baseFreq s' = setBaseFreq (body s) n
          \<and> (\<forall>v < VOICES. targetFreq s' v =
                (if int v < cachedNumVoices s
                 then baseFreq s' * 2 powr (real_of_int (chordDefs ! nat (CLAMP (chordType s) 0 5) ! v) / 12)
                 else targetFreq s v))
          \<and> chordDefs ! nat (CLAMP (chordType s) 0 5) =
                (if chordType s \<le> 0 then [0, 4, 7, 12] else if chordType s = 1 then [0, 3, 7, 12]
                 else if chordType s = 2 then [0, 5, 7, 12] else if chordType s = 3 then [0, 7, 12, 19]
                 else if chordType s = 4 then [0, 4, 7, 11] else [0, 3, 7, 10])
          \<and> (chordType s = 0 \<and> cachedNumVoices s = 4 \<longrightarrow>
                map (targetFreq s') [0, 1, 2, 3] =
                  map (\<lambda>r. baseFreq s' * r) [1, 2 powr (4 / 12), 2 powr (7 / 12), 2])"
proof -
  let ?g = "glideEnabled s \<and> n \<noteq> lastNote s \<and> envAmp > 0.01"
  let ?offs = "chordDefs ! nat (CLAMP (chordType s) 0 5)"
  let ?s3 = "(if \<not> ?g then Engine_noteOn (s\<lparr>velocity := vel\<rparr>) else s\<lparr>velocity := vel\<rparr>)
                \<lparr>baseFreq := setBaseFreq (body s) n\<rparr>"
  define s' where "s' = (fold (setVoice ?g rnd ?offs) [0 ..< VOICES] ?s3)
                \<lparr>lastNote := n, heldNotes := heldNotes s + 1\<rparr>"
  have run: "noteOn setBaseFreq rnd envAmp n vel s = Some s'"
    unfolding s'_def by (rule noteOn_Some [OF room])
  have base: "baseFreq s' = setBaseFreq (body s) n"
    by (simp add: s'_def fold_setVoice_frame Engine_noteOn_def)
  have tgt: "targetFreq s' v =
      (if int v < cachedNumVoices s
       then baseFreq s' * 2 powr (real_of_int (?offs ! v) / 12) else targetFreq s v)"
    if "v < VOICES" for v
    using that by (simp add: s'_def fold_setVoice_target fold_setVoice_frame Engine_noteOn_def)
  have major: "map (targetFreq s') [0, 1, 2, 3] =
      map (\<lambda>r. baseFreq s' * r) [1, 2 powr (4 / 12), 2 powr (7 / 12), 2]"
    if "chordType s = 0" "cachedNumVoices s = 4"
  proof -
    have row: "?offs = [0, 4, 7, 12]" using that by (simp add: chord_row)
    have v: "(0::nat) < VOICES" "(1::nat) < VOICES" "(2::nat) < VOICES" "(3::nat) < VOICES"
      by (simp_all add: VOICES_def)
    have "targetFreq s' 0 = baseFreq s' * 1" "targetFreq s' 1 = baseFreq s' * 2 powr (4 / 12)"
      "targetFreq s' 2 = baseFreq s' * 2 powr (7 / 12)" "targetFreq s' 3 = baseFreq s' * 2"
      using tgt [OF v(1)] tgt [OF v(2)] tgt [OF v(3)] tgt [OF v(4)] that(2)
      by (simp_all add: row)
    then show ?thesis by simp
  qed
  from run base tgt major chord_row [of "chordType s"] show ?thesis by blast
qed

theorem noteOn_target_frequencies_witness:
  "heldNotes chord0 < 2 ^ 31 - 1 \<and> chordType chord0 = 0 \<and> cachedNumVoices chord0 = 4 \<and>
   (\<exists>s'. noteOn (\<lambda>b k. 220) (\<lambda>k. 0) 0 60 1 chord0 = Some s' \<and> baseFreq s' = 220 \<and>
      map (targetFreq s') [0, 1, 2, 3] =
        map (\<lambda>r. baseFreq s' * r) [1, 2 powr (4 / 12), 2 powr (7 / 12), 2])"
proof -
  have r: "heldNotes chord0 < 2 ^ 31 - 1" by (simp add: chord0_facts)
  from noteOn_target_frequencies [OF r, of "\<lambda>b k. 220" "\<lambda>k. 0" 0 60 1]
  obtain s' where "noteOn (\<lambda>b k. 220) (\<lambda>k. 0) 0 60 1 chord0 = Some s'" "baseFreq s' = 220"
    "map (targetFreq s') [0, 1, 2, 3] =
        map (\<lambda>r. baseFreq s' * r) [1, 2 powr (4 / 12), 2 powr (7 / 12), 2]"
    by (auto simp: chord0_facts)
  with r show ?thesis by (auto simp: chord0_facts)
qed

section \<open>Properties of the wavetable engine\<close>

lemma setFreq_note: "freqNote (setFreq s n) = (if n = 0 then freqNote s else n)"
  by (simp add: setFreq_def Let_def)

lemma setFreq_cutoff:
  "antiAliasCutoff (setFreq s n) =
     CLAMP (1 - real_of_int (uint (freqNote (setFreq s n)) - 36) / 60 * 0.7) 0.15 1"
  by (simp add: setFreq_def Let_def)

lemma setFreq_filter: "antiAliasFilterCutoff (setFreq s n) = antiAliasCutoff (setFreq s n)"
  by (simp add: setFreq_def Let_def)

lemma callers_of_setFreq:
  "antiAliasCutoff (Wavetable2Engine_noteOn n vel s) = antiAliasCutoff (setFreq s n)"
  "freqNote (Wavetable2Engine_noteOn n vel s) = freqNote (setFreq s n)"
  "antiAliasCutoff (picth_callback p s) = antiAliasCutoff (setFreq s 0)"
  "freqNote (picth_callback p s) = freqNote (setFreq s 0)"
  by (simp_all add: Wavetable2Engine_noteOn_def picth_callback_def setFreq_def Let_def)

lemma cutoff_bounds: "0.15 \<le> CLAMP (x::real) 0.15 1 \<and> CLAMP x 0.15 1 \<le> 1"
  by (simp add: CLAMP_def)

lemma cutoff_mono:
  "(a::int) \<le> b \<Longrightarrow>
   CLAMP (1 - real_of_int (b - 36) / 60 * 0.7) 0.15 1
     \<le> CLAMP (1 - real_of_int (a - 36) / 60 * 0.7) 0.15 (1::real)"
  by (auto simp: CLAMP_def)

lemma cutoff_low:
  "(a::int) \<le> 36 \<Longrightarrow> CLAMP (1 - real_of_int (a - 36) / 60 * 0.7) 0.15 (1::real) = 1"
  by (auto simp: CLAMP_def)

lemma cutoff_linear:
  "36 \<le> (a::int) \<Longrightarrow> a \<le> 108 \<Longrightarrow>
   CLAMP (1 - real_of_int (a - 36) / 60 * 0.7) 0.15 (1::real)
     = 1 - real_of_int (a - 36) / 60 * 0.7"
  by (auto simp: CLAMP_def)

text \<open>
  Claim C8, as the code has it. \<open>noteOn\<close> and the pitch callback both compute the cutoff
  in \<open>setFreq\<close>, from the note that \<open>setFreq\<close> stores: the note passed in, unless that is
  0, which stands for the note stored before. In terms of that stored note the cutoff
  always lies within \<open>[0.15, 1.0]\<close>, is handed to the anti-alias filter, equals 1.0 at
  and below note 36 and 0.3 at note 96, is \<open>1 - (note - 36) / 60 * 0.7\<close> for the notes
  from 36 to 108, and does not increase when the note goes up. The arithmetic is that of
  the reals; the rounding of \<open>float\<close> is not modelled.
\<close>

theorem antiAliasCutoff_monotone_bounded:
  "0.15 \<le> antiAliasCutoff (setFreq s n) \<and> antiAliasCutoff (setFreq s n) \<le> 1
   \<and> antiAliasFilterCutoff (setFreq s n) = antiAliasCutoff (setFreq s n)
   \<and> antiAliasCutoff (Wavetable2Engine_noteOn n vel s) = antiAliasCutoff (setFreq s n)
   \<and> antiAliasCutoff (picth_callback p s) = antiAliasCutoff (setFreq s 0)
   \<and> freqNote (setFreq s n) = (if n = 0 then freqNote s else n)
   \<and> (freqNote (setFreq s n) \<le> 36 \<longrightarrow> antiAliasCutoff (setFreq s n) = 1)
   \<and> (freqNote (setFreq s n) = 96 \<longrightarrow> antiAliasCutoff (setFreq s n) = 0.3)
   \<and> (36 \<le> freqNote (setFreq s n) \<and> freqNote (setFreq s n) \<le> 108 \<longrightarrow>
        antiAliasCutoff (setFreq s n) =
          1 - real_of_int (uint (freqNote (setFreq s n)) - 36) / 60 * 0.7)
   \<and> (freqNote (setFreq s n) \<le> freqNote (setFreq s' n') \<longrightarrow>
        antiAliasCutoff (setFreq s' n') \<le> antiAliasCutoff (setFreq s n))"
proof -
  let ?k = "uint (freqNote (setFreq s n))"
  have low: "antiAliasCutoff (setFreq s n) = 1" if "freqNote (setFreq s n) \<le> 36"
  proof -
    from that have "?k \<le> 36" by (simp add: word_le_def)
    then show ?thesis unfolding setFreq_cutoff by (rule cutoff_low)
  qed
  have lin: "antiAliasCutoff (setFreq s n) = 1 - real_of_int (?k - 36) / 60 * 0.7"
    if "36 \<le> freqNote (setFreq s n)" "freqNote (setFreq s n) \<le> 108"
  proof -
    from that have "36 \<le> ?k" "?k \<le> 108" by (simp_all add: word_le_def)
    then show ?thesis unfolding setFreq_cutoff by (rule cutoff_linear)
  qed
  have c7: "antiAliasCutoff (setFreq s n) = 0.3" if "freqNote (setFreq s n) = 96"
    unfolding setFreq_cutoff that by (simp add: CLAMP_def)
  have mono: "antiAliasCutoff (setFreq s' n') \<le> antiAliasCutoff (setFreq s n)"
    if "freqNote (setFreq s n) \<le> freqNote (setFreq s' n')"
  proof -
    from that have "?k \<le> uint (freqNote (setFreq s' n'))" by (simp add: word_le_def)
    then show ?thesis unfolding setFreq_cutoff by (rule cutoff_mono)
  qed
  have bnd: "0.15 \<le> antiAliasCutoff (setFreq s n)" "antiAliasCutoff (setFreq s n) \<le> 1"
    unfolding setFreq_cutoff using cutoff_bounds by blast+
  from bnd low lin c7 mono setFreq_note [of s n] setFreq_filter [of s n]
    callers_of_setFreq(1) [of n vel s] callers_of_setFreq(3) [of p s]
  show ?thesis by blast
qed

theorem antiAliasCutoff_monotone_bounded_witness:
  "antiAliasCutoff (setFreq wt0 24) = 1 \<and> antiAliasCutoff (setFreq wt0 96) = 3 / 10 \<and>
   antiAliasCutoff (setFreq wt0 72) = 1 - real_of_int (72 - 36) / 60 * 0.7 \<and>
   freqNote (setFreq wt0 24) \<le> freqNote (setFreq wt0 96) \<and>
   antiAliasCutoff (setFreq wt0 96) \<le> antiAliasCutoff (setFreq wt0 24)"
  using antiAliasCutoff_monotone_bounded [of wt0 24 0 0 wt0 96]
    antiAliasCutoff_monotone_bounded [of wt0 96 0 0 wt0 96]
    antiAliasCutoff_monotone_bounded [of wt0 72 0 0 wt0 72]
  by (simp add: setFreq_note word_le_def)

text \<open>
  Claim C8 as it is written speaks of every note number. The note number 0 is not a
  pitch of its own in \<open>setFreq\<close>: with the engine as constructed (stored note 60),
  \<open>noteOn\<close> with note 0 computes the cutoff of note 60, which is 0.72 and not 1.0, and
  \<open>noteOn\<close> with note 1 computes 1.0, which is more.
\<close>

theorem cutoff_note_zero_counterexample:
  "antiAliasCutoff (Wavetable2Engine_noteOn 0 1 wt0) = 18 / 25 \<and>
   antiAliasCutoff (Wavetable2Engine_noteOn 1 1 wt0) = 1 \<and>
   (0 :: 8 word) \<le> 1 \<and> (0 :: 8 word) \<le> 36 \<and>
   \<not> antiAliasCutoff (Wavetable2Engine_noteOn 1 1 wt0)
       \<le> antiAliasCutoff (Wavetable2Engine_noteOn 0 1 wt0)"
  by (simp add: Wavetable2Engine_noteOn_def setFreq_def Let_def CLAMP_def wt0_def)

end
